theory Spec2Isabelle
  imports Main "HOL-Library.AList" "HOL-Library.Multiset"
begin

section \<open>Python strings\<close>

text \<open>
  A Python \<open>str\<close> is a sequence of Unicode code points. It is modelled as the list of
  its code points, so that the answers, questions and achievement names of the program,
  which are Chinese, are values of the model. \<open>py\<close> embeds an ASCII literal.
\<close>

type_synonym pystr = "nat list"

definition py :: "string \<Rightarrow> pystr" where
  "py s = map of_char s"

text \<open>
  \<open>str.isspace\<close> on one code point, which is what \<open>str.strip()\<close> and
  \<open>str.split()\<close> without arguments test: the code points of bidirectional type
  WS, B or S, and of category Zs.
\<close>

definition isspace :: "nat \<Rightarrow> bool" where
  "isspace c \<longleftrightarrow>
     (9 \<le> c \<and> c \<le> 13) \<or> (28 \<le> c \<and> c \<le> 32) \<or> c = 133 \<or> c = 160 \<or> c = 5760 \<or>
     (8192 \<le> c \<and> c \<le> 8202) \<or> c = 8232 \<or> c = 8233 \<or> c = 8239 \<or> c = 8287 \<or>
     c = 12288"

text \<open>\<open>s.strip()\<close>: the white space at both ends is removed.\<close>

definition strip :: "pystr \<Rightarrow> pystr" where
  "strip s = rev (dropWhile isspace (rev (dropWhile isspace s)))"

text \<open>
  \<open>s.split()\<close>: skip white space; if the string is not exhausted, the word runs from
  there to the next white space; repeat. No word is empty.
\<close>

function split :: "pystr \<Rightarrow> pystr list" where
  "split s =
     (case dropWhile isspace s of
        [] \<Rightarrow> []
      | c # cs \<Rightarrow>
          (c # takeWhile (\<lambda>x. \<not> isspace x) cs) # split (dropWhile (\<lambda>x. \<not> isspace x) cs))"
  by pat_completeness auto
termination
proof (relation "measure length")
  show "wf (measure length)" by simp
next
  fix s :: pystr and c cs
  assume d: "dropWhile isspace s = c # cs"
  have "length (dropWhile (\<lambda>x. \<not> isspace x) cs) \<le> length cs"
    by (rule length_dropWhile_le)
  moreover have "length (c # cs) \<le> length s"
    using length_dropWhile_le [of isspace s] d by simp
  ultimately show "(dropWhile (\<lambda>x. \<not> isspace x) cs, s) \<in> measure length"
    by simp
qed

declare split.simps [simp del]

text \<open>\<open>sep.join(words)\<close>.\<close>

fun join :: "pystr \<Rightarrow> pystr list \<Rightarrow> pystr" where
  "join sep [] = []"
| "join sep [w] = w"
| "join sep (w # v # ws) = w @ sep @ join sep (v # ws)"

section \<open>Answer matcher\<close>

text \<open>\<open>TermTrainer.normalize_answer\<close>: \<open>' '.join(answer.strip().split())\<close>.\<close>

definition normalize_answer :: "pystr \<Rightarrow> pystr" where
  "normalize_answer answer = join (py '' '') (split (strip answer))"

text \<open>
  \<open>TermTrainer.check_answer\<close>: the loop over the accepted answers returns at the first
  one whose normal form is the normal form of the user's answer.
\<close>

fun check_answer :: "pystr \<Rightarrow> pystr list \<Rightarrow> bool" where
  "check_answer user_answer [] = False"
| "check_answer user_answer (ans # correct_answers) =
     (if normalize_answer ans = normalize_answer user_answer then True
      else check_answer user_answer correct_answers)"

text \<open>
  The normalisation as the specification words it, to compare \<open>normalize_answer\<close>
  with: after the white space at both ends is trimmed, every run of white space inside
  is replaced by a single space.
\<close>

function collapse_runs :: "pystr \<Rightarrow> pystr" where
  "collapse_runs [] = []"
| "collapse_runs (c # cs) =
     (if isspace c then 32 # collapse_runs (dropWhile isspace cs) else c # collapse_runs cs)"
  by pat_completeness auto
termination
  by (relation "measure length") (auto simp: length_dropWhile_le less_Suc_eq_le)

text \<open>The normalisation of the specification: trim, then collapse.\<close>

definition spec_normalize :: "pystr \<Rightarrow> pystr" where
  "spec_normalize s = collapse_runs (strip s)"

section \<open>Progress store\<close>

text \<open>
  \<open>ProgressTracker.data\<close> is a dictionary of fixed keys, the shape of
  \<open>progress.json\<close>. Python dictionaries keep the order in which keys were
  inserted, and \<open>get_wrong_exercises\<close> depends on it, so the three inner
  dictionaries are association lists: \<open>map_of m k\<close> is the look-up,
  \<open>AList.update k v m\<close> is \<open>m[k] = v\<close> (in place for a key that is there, at
  the end for a new one) and \<open>AList.delete k m\<close> is \<open>del m[k]\<close>.
  The key \<open>wrong_answers\<close> may be missing in a file written by an older version
  (\<open>_ensure_wrong_answers\<close>), hence the option.
\<close>

record tally =
  total :: int
  correct :: int

record wrong_entry =
  category :: pystr
  command :: pystr
  question :: pystr
  answers :: "pystr list"
  wrong_count :: int
  last_wrong :: pystr
  last_user_answer :: pystr

record progress_data =
  total_exercises :: int
  correct_answers :: int
  streak :: int
  best_streak :: int
  categories_completed :: "(pystr \<times> tally) list"
  commands_practiced :: "(pystr \<times> tally) list"
  last_practice :: "pystr option"
  achievements :: "pystr list"
  wrong_answers :: "(pystr \<times> wrong_entry) list option"

text \<open>What the program prints, as far as the store and the sessions decide it.\<close>

datatype message =
    Unlocked pystr
  | NoExercises
  | Skipped pystr
  | HintCommand pystr
  | HintExamples "pystr list"
  | Right
  | RightRemoved
  | Wrong
  | StillWrong
  | CanonicalAnswer pystr
  | OtherForms "pystr list"
  | CategoryDone int int int
  | RandomDone int int int
  | NotebookEmpty
  | ReplayDone int int int int

text \<open>
  The tracker object, the file \<open>progress.json\<close> it owns (\<open>None\<close>: no file, or
  one that does not parse) and the terminal it prints to.
\<close>

record tracker =
  data :: progress_data
  progress_file :: "progress_data option"
  terminal :: "message list"

definition default_progress :: progress_data where
  "default_progress =
     \<lparr>total_exercises = 0, correct_answers = 0, streak = 0, best_streak = 0,
      categories_completed = [], commands_practiced = [], last_practice = None,
      achievements = [], wrong_answers = Some []\<rparr>"

text \<open>\<open>ProgressTracker._load_progress\<close>.\<close>

definition load_progress :: "progress_data option \<Rightarrow> progress_data" where
  "load_progress f = (case f of Some d \<Rightarrow> d | None \<Rightarrow> default_progress)"

text \<open>\<open>ProgressTracker.__init__\<close>.\<close>

definition init :: "progress_data option \<Rightarrow> tracker" where
  "init f = \<lparr>data = load_progress f, progress_file = f, terminal = []\<rparr>"

text \<open>\<open>ProgressTracker.save\<close>: the whole state overwrites the file.\<close>

definition save :: "tracker \<Rightarrow> tracker" where
  "save t = t\<lparr>progress_file := Some (data t)\<rparr>"

text \<open>\<open>ProgressTracker._ensure_wrong_answers\<close>.\<close>

definition ensure_wrong_answers :: "tracker \<Rightarrow> tracker" where
  "ensure_wrong_answers t =
     (if wrong_answers (data t) = None then t\<lparr>data := (data t)\<lparr>wrong_answers := Some []\<rparr>\<rparr>
      else t)"

text \<open>The dictionary \<open>self.data["wrong_answers"]\<close>, once it is ensured.\<close>

definition wrong_book :: "tracker \<Rightarrow> (pystr \<times> wrong_entry) list" where
  "wrong_book t = (case wrong_answers (data t) of None \<Rightarrow> [] | Some m \<Rightarrow> m)"

text \<open>The composite key \<open>f"{category}::{command}::{question}"\<close>.\<close>

definition wrong_key :: "pystr \<Rightarrow> pystr \<Rightarrow> pystr \<Rightarrow> pystr" where
  "wrong_key cat cmd q = cat @ py ''::'' @ cmd @ py ''::'' @ q"

text \<open>
  \<open>ProgressTracker.record_wrong_answer\<close>. \<open>now\<close> is what
  \<open>datetime.now().isoformat()\<close> returns at the call.
\<close>

definition record_wrong_answer ::
  "pystr \<Rightarrow> pystr \<Rightarrow> pystr \<Rightarrow> pystr list \<Rightarrow> pystr \<Rightarrow> pystr \<Rightarrow> tracker \<Rightarrow> tracker" where
  "record_wrong_answer cat cmd q ans user_answer now t =
     (let t = ensure_wrong_answers t;
          key = wrong_key cat cmd q;
          wrong = wrong_book t
      in if map_of wrong key \<noteq> None then
           t\<lparr>data := (data t)\<lparr>wrong_answers := Some
              (AList.map_entry key
                 (\<lambda>entry. entry\<lparr>wrong_count := wrong_count entry + 1,
                                 last_wrong := now,
                                 last_user_answer := user_answer\<rparr>)
                 wrong)\<rparr>\<rparr>
         else
           t\<lparr>data := (data t)\<lparr>wrong_answers := Some
              (AList.update key
                 \<lparr>category = cat, command = cmd, question = q, answers = ans,
                  wrong_count = 1, last_wrong = now, last_user_answer = user_answer\<rparr>
                 wrong)\<rparr>\<rparr>)"

text \<open>\<open>ProgressTracker.remove_wrong_answer\<close>.\<close>

definition remove_wrong_answer :: "pystr \<Rightarrow> tracker \<Rightarrow> tracker" where
  "remove_wrong_answer key t =
     (let t = ensure_wrong_answers t;
          wrong = wrong_book t
      in if map_of wrong key \<noteq> None then
           t\<lparr>data := (data t)\<lparr>wrong_answers := Some (AList.delete key wrong)\<rparr>\<rparr>
         else t)"

text \<open>
  \<open>ProgressTracker.get_wrong_exercises\<close>. An item \<open>{"key": key, **entry}\<close> is the
  pair of the key and the entry. \<open>list.sort(key=..., reverse=True)\<close> is stable: it
  sorts the reversed list in ascending order, stably, and reverses the result.
\<close>

definition sort_reverse :: "('a \<Rightarrow> int) \<Rightarrow> 'a list \<Rightarrow> 'a list" where
  "sort_reverse f xs = rev (sort_key f (rev xs))"

definition get_wrong_exercises :: "tracker \<Rightarrow> (pystr \<times> wrong_entry) list \<times> tracker" where
  "get_wrong_exercises t =
     (let t = ensure_wrong_answers t;
          wrong = wrong_book t;
          exercises = map (\<lambda>(key, entry). (key, entry)) wrong
      in (sort_reverse (\<lambda>x. wrong_count (snd x)) exercises, t))"

subsection \<open>Achievements\<close>

definition beginner :: pystr where
  "beginner = [21021, 23398, 32773]"

definition practice_expert :: pystr where
  "practice_expert = [32451, 20064, 36798, 20154]"

definition terminal_master :: pystr where
  "terminal_master = [32456, 31471, 22823, 24072]"

definition streak_rookie :: pystr where
  "streak_rookie = [36830, 32988, 26032, 31168]"

definition streak_expert :: pystr where
  "streak_expert = [36830, 32988, 36798, 20154]"

definition streak_master :: pystr where
  "streak_master = [36830, 32988, 22823, 24072]"

text \<open>
  The first half of \<open>ProgressTracker._check_achievements\<close>: the local list
  \<open>achievements\<close> of what the counters have earned and the state does not hold.
\<close>

definition earned :: "progress_data \<Rightarrow> pystr list" where
  "earned d =
     (if total_exercises d \<ge> 10 \<and> beginner \<notin> set (achievements d) then [beginner] else []) @
     (if total_exercises d \<ge> 50 \<and> practice_expert \<notin> set (achievements d)
      then [practice_expert] else []) @
     (if total_exercises d \<ge> 100 \<and> terminal_master \<notin> set (achievements d)
      then [terminal_master] else []) @
     (if streak d \<ge> 5 \<and> streak_rookie \<notin> set (achievements d) then [streak_rookie] else []) @
     (if streak d \<ge> 10 \<and> streak_expert \<notin> set (achievements d) then [streak_expert] else []) @
     (if best_streak d \<ge> 20 \<and> streak_master \<notin> set (achievements d)
      then [streak_master] else [])"

text \<open>The second half: the loop that appends and announces them.\<close>

fun unlock :: "pystr list \<Rightarrow> tracker \<Rightarrow> tracker" where
  "unlock [] t = t"
| "unlock (ach # rest) t =
     unlock rest
       (if ach \<notin> set (achievements (data t)) then
          t\<lparr>data := (data t)\<lparr>achievements := achievements (data t) @ [ach]\<rparr>,
            terminal := terminal t @ [Unlocked ach]\<rparr>
        else t)"

definition check_achievements :: "tracker \<Rightarrow> tracker" where
  "check_achievements t = unlock (earned (data t)) t"

subsection \<open>Recording an attempt\<close>

text \<open>
  The three statements on a tally dictionary in \<open>record_attempt\<close>: a zeroed entry on
  first touch, \<open>total\<close> incremented, \<open>correct\<close> incremented when the answer was.
\<close>

definition tally_attempt :: "pystr \<Rightarrow> bool \<Rightarrow> (pystr \<times> tally) list \<Rightarrow> (pystr \<times> tally) list" where
  "tally_attempt k ok m =
     (let m = (if map_of m k = None then AList.update k \<lparr>total = 0, correct = 0\<rparr> m else m);
          m = AList.map_entry k (\<lambda>e. e\<lparr>total := total e + 1\<rparr>) m
      in if ok then AList.map_entry k (\<lambda>e. e\<lparr>correct := correct e + 1\<rparr>) m else m)"

text \<open>\<open>ProgressTracker.record_attempt\<close>.\<close>

definition record_attempt :: "pystr \<Rightarrow> pystr \<Rightarrow> bool \<Rightarrow> pystr \<Rightarrow> tracker \<Rightarrow> tracker" where
  "record_attempt cat cmd ok now t =
     (let d = data t;
          d = d\<lparr>total_exercises := total_exercises d + 1\<rparr>;
          d = (if ok then
                 (let d = d\<lparr>correct_answers := correct_answers d + 1\<rparr>;
                      d = d\<lparr>streak := streak d + 1\<rparr>
                  in d\<lparr>best_streak := max (best_streak d) (streak d)\<rparr>)
               else d\<lparr>streak := 0\<rparr>);
          d = d\<lparr>categories_completed := tally_attempt cat ok (categories_completed d)\<rparr>;
          d = d\<lparr>commands_practiced := tally_attempt cmd ok (commands_practiced d)\<rparr>;
          d = d\<lparr>last_practice := Some now\<rparr>
      in save (check_achievements (t\<lparr>data := d\<rparr>)))"

text \<open>\<open>ProgressTracker.get_accuracy\<close> returns a float and is not part of this model.\<close>

subsection \<open>The achievement table and sequences of operations\<close>

text \<open>
  The table of the achievement engine as the specification gives it: the counter, the
  threshold and the identifier of each of the six achievements.
\<close>

definition threshold_met :: "progress_data \<Rightarrow> pystr \<Rightarrow> bool" where
  "threshold_met d a \<longleftrightarrow>
     a = beginner \<and> 10 \<le> total_exercises d \<or>
     a = practice_expert \<and> 50 \<le> total_exercises d \<or>
     a = terminal_master \<and> 100 \<le> total_exercises d \<or>
     a = streak_rookie \<and> 5 \<le> streak d \<or>
     a = streak_expert \<and> 10 \<le> streak d \<or>
     a = streak_master \<and> 20 \<le> best_streak d"

text \<open>
  A call of one of the three mutating operations of the store, with its arguments, and
  a sequence of such calls run from a state.
\<close>

datatype store_op =
    RecordAttempt pystr pystr bool pystr
  | RecordWrongAnswer pystr pystr pystr "pystr list" pystr pystr
  | RemoveWrongAnswer pystr

fun apply_op :: "store_op \<Rightarrow> tracker \<Rightarrow> tracker" where
  "apply_op (RecordAttempt cat cmd ok now) t = record_attempt cat cmd ok now t"
| "apply_op (RecordWrongAnswer cat cmd q ans user_answer now) t =
     record_wrong_answer cat cmd q ans user_answer now t"
| "apply_op (RemoveWrongAnswer key) t = remove_wrong_answer key t"

fun run_ops :: "store_op list \<Rightarrow> tracker \<Rightarrow> tracker" where
  "run_ops [] t = t"
| "run_ops (x # xs) t = run_ops xs (apply_op x t)"

section \<open>Practice sessions\<close>

text \<open>
  \<open>str.lower\<close>, as far as the sessions use it: to compare the input with the words
  \<open>quit\<close>, \<open>skip\<close> and \<open>hint\<close>. The code points that Python lowers to an ASCII
  letter are \<open>A\<close> to \<open>Z\<close> and the Kelvin sign U+212A; every other code point is
  lowered to code points outside ASCII or kept, and is kept here, which changes no
  comparison with an ASCII word.
\<close>

definition lower_char :: "nat \<Rightarrow> nat" where
  "lower_char c = (if 65 \<le> c \<and> c \<le> 90 then c + 32 else if c = 8490 then 107 else c)"

definition lower :: "pystr \<Rightarrow> pystr" where
  "lower s = map lower_char s"

text \<open>The answer \<open>'(\<dots>)'\<close> that a skip records: "(skipped)" in Chinese.\<close>

definition skipped :: pystr where
  "skipped = [40, 36339, 36807, 41]"

text \<open>
  An exercise of a session: a dictionary built from a command of \<open>COMMANDS_DB\<close> and
  one of its exercises. \<open>random_practice\<close> adds the category to it.
\<close>

record exercise =
  ex_command :: pystr
  ex_description :: pystr
  ex_examples :: "pystr list"
  ex_question :: pystr
  ex_answers :: "pystr list"

record random_exercise = exercise +
  category_key :: pystr
  category_name :: pystr

text \<open>
  The state a session runs in: the tracker \<open>self.progress\<close>, the number of times the
  clock was read, and the local counters of the three session functions.
\<close>

record run =
  progress :: tracker
  clock :: nat
  question_num :: int
  session_total :: int
  session_correct :: int
  removed_count :: int

datatype error = IndexError | EOFError

text \<open>
  How the \<open>while True\<close> loop on one exercise ends: \<open>return\<close> at the end of the
  input, \<open>break\<close> on \<open>quit\<close>, \<open>break\<close> after a skip or a judged answer, or an
  exception. The lines not read yet go with it.
\<close>

datatype outcome =
    Return run
  | Quit run "pystr list"
  | Next run "pystr list"
  | Raise error run

text \<open>\<open>print\<close>, and the two calls of the tracker that read the clock.\<close>

definition say :: "message \<Rightarrow> run \<Rightarrow> run" where
  "say m s = s\<lparr>progress := (progress s)\<lparr>terminal := terminal (progress s) @ [m]\<rparr>\<rparr>"

definition attempt :: "(nat \<Rightarrow> pystr) \<Rightarrow> pystr \<Rightarrow> pystr \<Rightarrow> bool \<Rightarrow> run \<Rightarrow> run" where
  "attempt now cat cmd ok s =
     s\<lparr>progress := record_attempt cat cmd ok (now (clock s)) (progress s),
       clock := Suc (clock s)\<rparr>"

definition wrong_answer ::
  "(nat \<Rightarrow> pystr) \<Rightarrow> pystr \<Rightarrow> pystr \<Rightarrow> pystr \<Rightarrow> pystr list \<Rightarrow> pystr \<Rightarrow> run \<Rightarrow> run" where
  "wrong_answer now cat cmd q ans user_answer s =
     s\<lparr>progress := record_wrong_answer cat cmd q ans user_answer (now (clock s)) (progress s),
       clock := Suc (clock s)\<rparr>"

text \<open>
  The \<open>while True\<close> loop of \<open>practice_category\<close> (with \<open>cat\<close> the function's
  \<open>category_key\<close>) and of \<open>random_practice\<close> (with \<open>cat\<close> the exercise's
  \<open>category_key\<close>): the two loops are the same text but for that expression. The
  input is the list of the lines still to be read; \<open>input()\<close> on the empty list
  raises \<open>EOFError\<close>. \<open>ex['answers'][0]\<close> raises \<open>IndexError\<close> on an empty list.
\<close>

fun ask :: "(nat \<Rightarrow> pystr) \<Rightarrow> pystr \<Rightarrow> 'a exercise_scheme \<Rightarrow> pystr list \<Rightarrow> run \<Rightarrow> outcome" where
  "ask now cat ex [] s = Return s"
| "ask now cat ex (line # inputs) s =
     (let user_input = strip line in
      if lower user_input = py ''quit'' then Quit s inputs
      else if lower user_input = py ''skip'' then
        (case ex_answers ex of
           [] \<Rightarrow> Raise IndexError s
         | canonical # others \<Rightarrow>
             (let s = say (Skipped canonical) s;
                  s = attempt now cat (ex_command ex) False s;
                  s = wrong_answer now cat (ex_command ex) (ex_question ex) (ex_answers ex)
                        skipped s;
                  s = s\<lparr>session_total := session_total s + 1\<rparr>
              in Next s inputs))
      else if lower user_input = py ''hint'' then
        ask now cat ex inputs
          (say (HintExamples (take 2 (ex_examples ex))) (say (HintCommand (ex_command ex)) s))
      else if user_input = [] then ask now cat ex inputs s
      else
        (let s = s\<lparr>session_total := session_total s + 1\<rparr> in
         if check_answer user_input (ex_answers ex) then
           (let s = say Right s;
                s = attempt now cat (ex_command ex) True s;
                s = s\<lparr>session_correct := session_correct s + 1\<rparr>
            in Next s inputs)
         else
           (let s = say Wrong s in
            case ex_answers ex of
              [] \<Rightarrow> Raise IndexError s
            | canonical # others \<Rightarrow>
                (let s = say (CanonicalAnswer canonical) s;
                     s = (if length (ex_answers ex) > 1 then say (OtherForms others) s else s);
                     s = attempt now cat (ex_command ex) False s;
                     s = wrong_answer now cat (ex_command ex) (ex_question ex) (ex_answers ex)
                           user_input s
                 in Next s inputs))))"

text \<open>
  The \<open>for ex in exercises\<close> loop of \<open>practice_category\<close>. It is left by
  \<open>return\<close>, by the \<open>break\<close> that follows a \<open>quit\<close>, by an exception, or at
  the end of the list.
\<close>

fun category_loop ::
  "(nat \<Rightarrow> pystr) \<Rightarrow> pystr \<Rightarrow> exercise list \<Rightarrow> pystr list \<Rightarrow> run \<Rightarrow> outcome" where
  "category_loop now cat [] inputs s = Next s inputs"
| "category_loop now cat (ex # exercises) inputs s =
     (case ask now cat ex inputs (s\<lparr>question_num := question_num s + 1\<rparr>) of
        Next s inputs \<Rightarrow> category_loop now cat exercises inputs s
      | out \<Rightarrow> out)"

text \<open>The \<open>for ex in exercises\<close> loop of \<open>random_practice\<close>.\<close>

fun random_loop ::
  "(nat \<Rightarrow> pystr) \<Rightarrow> random_exercise list \<Rightarrow> pystr list \<Rightarrow> run \<Rightarrow> outcome" where
  "random_loop now [] inputs s = Next s inputs"
| "random_loop now (ex # exercises) inputs s =
     (case ask now (category_key ex) ex inputs (s\<lparr>question_num := question_num s + 1\<rparr>) of
        Next s inputs \<Rightarrow> random_loop now exercises inputs s
      | out \<Rightarrow> out)"

text \<open>
  The end of a session function: the summary is printed and \<open>input()\<close> waits for
  Enter; nothing catches its \<open>EOFError\<close>.
\<close>

definition press_enter :: "run \<Rightarrow> pystr list \<Rightarrow> outcome" where
  "press_enter s inputs = (case inputs of [] \<Rightarrow> Raise EOFError s | line # rest \<Rightarrow> Next s rest)"

text \<open>
  \<open>TermTrainer.practice_category\<close>, with \<open>cat\<close> its \<open>category_key\<close>.
  \<open>shuffled\<close> is the list of the category's exercises as \<open>random.shuffle\<close> left
  it. The result is \<open>Next\<close> when the function returns, with the lines it did not
  read, and \<open>Raise\<close> when an exception leaves it.
\<close>

definition practice_category ::
  "(nat \<Rightarrow> pystr) \<Rightarrow> pystr \<Rightarrow> exercise list \<Rightarrow> pystr list \<Rightarrow> run \<Rightarrow> outcome" where
  "practice_category now cat shuffled inputs s =
     (if shuffled = [] then Next (say NoExercises s) inputs
      else
        (case category_loop now cat shuffled inputs
                (s\<lparr>question_num := 0, session_total := 0, session_correct := 0\<rparr>) of
           Return s \<Rightarrow> Next s []
         | Raise e s \<Rightarrow> Raise e s
         | Quit s inputs \<Rightarrow>
             press_enter
               (say (CategoryDone (session_correct s) (session_total s)
                  (streak (data (progress s)))) s) inputs
         | Next s inputs \<Rightarrow>
             press_enter
               (say (CategoryDone (session_correct s) (session_total s)
                  (streak (data (progress s)))) s) inputs))"

text \<open>
  The slice \<open>xs[:n]\<close>: a negative \<open>n\<close> counts from the end.
\<close>

definition slice_to :: "int \<Rightarrow> 'a list \<Rightarrow> 'a list" where
  "slice_to n xs =
     (if n < 0 then take (nat (int (length xs) + n)) xs else take (nat n) xs)"

text \<open>
  \<open>TermTrainer.random_practice\<close>. \<open>shuffled\<close> is the list of all the exercises of
  \<open>COMMANDS_DB\<close> as \<open>random.shuffle\<close> left it, \<open>n\<close> is the parameter \<open>count\<close>.
\<close>

definition random_practice ::
  "(nat \<Rightarrow> pystr) \<Rightarrow> random_exercise list \<Rightarrow> int \<Rightarrow> pystr list \<Rightarrow> run \<Rightarrow> outcome" where
  "random_practice now shuffled n inputs s =
     (case random_loop now (slice_to n shuffled) inputs
             (s\<lparr>question_num := 0, session_total := 0, session_correct := 0\<rparr>) of
        Return s \<Rightarrow> Next s []
      | Raise e s \<Rightarrow> Raise e s
      | Quit s inputs \<Rightarrow>
          press_enter
            (say (RandomDone (session_correct s) (session_total s)
               (streak (data (progress s)))) s) inputs
      | Next s inputs \<Rightarrow>
          press_enter
            (say (RandomDone (session_correct s) (session_total s)
               (streak (data (progress s)))) s) inputs)"

text \<open>
  The \<open>while True\<close> loop of \<open>practice_wrong_answers\<close>, on an item of
  \<open>get_wrong_exercises\<close>. \<open>examples\<close> is the list found for the item's command in
  \<open>COMMANDS_DB\<close>, empty when there is none.
\<close>

fun ask_again ::
  "(nat \<Rightarrow> pystr) \<Rightarrow> pystr list \<Rightarrow> pystr \<times> wrong_entry \<Rightarrow> pystr list \<Rightarrow> run \<Rightarrow> outcome" where
  "ask_again now examples ex [] s = Return s"
| "ask_again now examples ex (line # inputs) s =
     (let user_input = strip line in
      if lower user_input = py ''quit'' then Quit s inputs
      else if lower user_input = py ''skip'' then
        (case answers (snd ex) of
           [] \<Rightarrow> Raise IndexError s
         | canonical # others \<Rightarrow> Next (say (Skipped canonical) s) inputs)
      else if lower user_input = py ''hint'' then
        ask_again now examples ex inputs
          (let s = say (HintCommand (command (snd ex))) s
           in if examples \<noteq> [] then say (HintExamples (take 2 examples)) s else s)
      else if user_input = [] then ask_again now examples ex inputs s
      else if check_answer user_input (answers (snd ex)) then
        (let s = say RightRemoved s;
             s = s\<lparr>progress := remove_wrong_answer (fst ex) (progress s)\<rparr>;
             s = attempt now (category (snd ex)) (command (snd ex)) True s;
             s = s\<lparr>removed_count := removed_count s + 1\<rparr>
         in Next s inputs)
      else
        (let s = say StillWrong s in
         case answers (snd ex) of
           [] \<Rightarrow> Raise IndexError s
         | canonical # others \<Rightarrow>
             (let s = say (CanonicalAnswer canonical) s;
                  s = (if length (answers (snd ex)) > 1 then say (OtherForms others) s else s);
                  s = attempt now (category (snd ex)) (command (snd ex)) False s;
                  s = wrong_answer now (category (snd ex)) (command (snd ex))
                        (question (snd ex)) (answers (snd ex)) user_input s
              in Next s inputs)))"

text \<open>
  The \<open>for ex in wrong_exercises\<close> loop. \<open>db_examples category command\<close> is the
  look-up of the examples in \<open>COMMANDS_DB\<close>.
\<close>

fun replay_loop ::
  "(nat \<Rightarrow> pystr) \<Rightarrow> (pystr \<Rightarrow> pystr \<Rightarrow> pystr list) \<Rightarrow> (pystr \<times> wrong_entry) list \<Rightarrow>
   pystr list \<Rightarrow> run \<Rightarrow> outcome" where
  "replay_loop now db_examples [] inputs s = Next s inputs"
| "replay_loop now db_examples (ex # wrong_exercises) inputs s =
     (case ask_again now (db_examples (category (snd ex)) (command (snd ex))) ex inputs
             (s\<lparr>question_num := question_num s + 1\<rparr>) of
        Next s inputs \<Rightarrow> replay_loop now db_examples wrong_exercises inputs s
      | out \<Rightarrow> out)"

text \<open>\<open>TermTrainer.practice_wrong_answers\<close>.\<close>

definition practice_wrong_answers ::
  "(nat \<Rightarrow> pystr) \<Rightarrow> (pystr \<Rightarrow> pystr \<Rightarrow> pystr list) \<Rightarrow> pystr list \<Rightarrow> run \<Rightarrow> outcome" where
  "practice_wrong_answers now db_examples inputs s =
     (let (wrong_exercises, t) = get_wrong_exercises (progress s);
          s = s\<lparr>progress := t\<rparr>
      in if wrong_exercises = [] then press_enter (say NotebookEmpty s) inputs
         else
           (case replay_loop now db_examples wrong_exercises inputs
                   (s\<lparr>removed_count := 0, question_num := 0\<rparr>) of
              Return s \<Rightarrow> Next s []
            | Raise e s \<Rightarrow> Raise e s
            | Quit s inputs \<Rightarrow>
                press_enter
                  (say (ReplayDone (removed_count s)
                     (int (length wrong_exercises) - removed_count s) (question_num s)
                     (streak (data (progress s)))) s) inputs
            | Next s inputs \<Rightarrow>
                press_enter
                  (say (ReplayDone (removed_count s)
                     (int (length wrong_exercises) - removed_count s) (question_num s)
                     (streak (data (progress s)))) s) inputs))"

text \<open>
  The bookkeeping of a missed exercise, as the specification names it: the call of
  \<open>record_attempt\<close> with \<open>False\<close> followed by the call of \<open>record_wrong_answer\<close>
  with the answer to record, as the failure path of \<open>practice_category\<close> and
  \<open>random_practice\<close> makes them.
\<close>

definition miss_bookkeeping ::
  "(nat \<Rightarrow> pystr) \<Rightarrow> pystr \<Rightarrow> 'a exercise_scheme \<Rightarrow> pystr \<Rightarrow> run \<Rightarrow> run" where
  "miss_bookkeeping now cat ex user_answer s =
     wrong_answer now cat (ex_command ex) (ex_question ex) (ex_answers ex) user_answer
       (attempt now cat (ex_command ex) False s)"

section \<open>Example states\<close>

text \<open>
  A learner misses the exercise \<open>q\<close> of the command \<open>ls\<close> in a category session and
  then answers another exercise correctly: the store after the three calls the session
  makes, starting without a file.
\<close>

definition example_tracker :: tracker where
  "example_tracker =
     record_attempt (py ''files'') (py ''ls'') True (py ''t3'')
       (record_wrong_answer (py ''files'') (py ''ls'') (py ''q'') [py ''ls -a'', py ''ls -A'']
          (py ''ls -l'') (py ''t2'')
          (record_attempt (py ''files'') (py ''ls'') False (py ''t1'') (init None)))"

text \<open>The replay session that starts in that store, and the item it replays.\<close>

definition example_run :: run where
  "example_run =
     \<lparr>progress = example_tracker, clock = 0, question_num = 0, session_total = 0,
      session_correct = 0, removed_count = 0\<rparr>"

definition example_item :: "pystr \<times> wrong_entry" where
  "example_item =
     (wrong_key (py ''files'') (py ''ls'') (py ''q''),
      \<lparr>category = py ''files'', command = py ''ls'', question = py ''q'',
       answers = [py ''ls -a'', py ''ls -A''], wrong_count = 1, last_wrong = py ''t2'',
       last_user_answer = py ''ls -l''\<rparr>)"

text \<open>
  A clock that always shows the same time, a corpus without examples, and the exercise
  that was missed, as the category and the random session hold it.
\<close>

definition example_clock :: "nat \<Rightarrow> pystr" where
  "example_clock n = py ''t4''"

definition no_examples :: "pystr \<Rightarrow> pystr \<Rightarrow> pystr list" where
  "no_examples cat cmd = []"

definition example_exercise :: exercise where
  "example_exercise =
     \<lparr>ex_command = py ''ls'', ex_description = py ''list'', ex_examples = [py ''ls -l''],
      ex_question = py ''q'', ex_answers = [py ''ls -a'', py ''ls -A'']\<rparr>"

definition example_random_exercise :: random_exercise where
  "example_random_exercise =
     \<lparr>ex_command = py ''ls'', ex_description = py ''list'', ex_examples = [py ''ls -l''],
      ex_question = py ''q'', ex_answers = [py ''ls -a'', py ''ls -A''],
      category_key = py ''files'', category_name = py ''Files''\<rparr>"

section \<open>Properties of the matcher\<close>

lemma py_space [simp]: "py '' '' = [32]"
  by (simp add: py_def)

lemma isspace_32 [simp]: "isspace 32"
  by (simp add: isspace_def)

lemma split_Nil [simp]: "split [] = []"
  by (simp add: split.simps)

lemma split_dropWhile: "split (dropWhile isspace s) = split s"
  by (subst split.simps, subst (2) split.simps) (simp add: dropWhile_idem)

lemma split_space_Cons: "isspace c \<Longrightarrow> split (c # s) = split s"
  by (subst split.simps, subst (2) split.simps) simp

lemma split_all_space: "\<forall>c \<in> set s. isspace c \<Longrightarrow> split s = []"
proof -
  assume "\<forall>c \<in> set s. isspace c"
  then have d: "dropWhile isspace s = []" by simp
  show ?thesis by (subst split.simps) (simp only: d list.case)
qed

lemma split_append_spaces:
  "\<forall>c \<in> set sfx. isspace c \<Longrightarrow> split (t @ sfx) = split t"
proof (induction t rule: split.induct)
  case (1 s)
  show ?case
  proof (cases "dropWhile isspace s")
    case Nil
    then have a: "\<forall>c \<in> set s. isspace c"
      by (simp only: dropWhile_eq_Nil_conv)
    with 1(2) have "\<forall>c \<in> set (s @ sfx). isspace c" by auto
    then have "split (s @ sfx) = []" by (rule split_all_space)
    moreover have "split s = []" using a by (rule split_all_space)
    ultimately show ?thesis by simp
  next
    case (Cons c cs)
    then have "\<not> (\<forall>x \<in> set s. isspace x)"
      by (simp only: dropWhile_eq_Nil_conv [symmetric]) simp
    then obtain y where "y \<in> set s" "\<not> isspace y" by blast
    then have d: "dropWhile isspace (s @ sfx) = c # cs @ sfx"
      by (simp add: dropWhile_append1 [of y] Cons)
    show ?thesis
    proof (cases "\<forall>x \<in> set cs. \<not> isspace x")
      case True
      then have t1: "takeWhile (\<lambda>x. \<not> isspace x) cs = cs"
        and d1: "dropWhile (\<lambda>x. \<not> isspace x) cs = []" by simp_all
      have t2: "takeWhile (\<lambda>x. \<not> isspace x) (cs @ sfx) = cs"
        using True 1(2) by (cases sfx) (simp_all add: takeWhile_append2)
      have d2: "dropWhile (\<lambda>x. \<not> isspace x) (cs @ sfx) = sfx"
        using True 1(2) by (cases sfx) (simp_all add: dropWhile_append2)
      have "split (s @ sfx) = (c # cs) # split sfx"
        by (subst split.simps) (simp add: d t2 d2)
      moreover have "split sfx = []" using 1(2) by (rule split_all_space)
      moreover have "split s = [c # cs]"
        by (subst split.simps) (simp add: Cons t1 d1)
      ultimately show ?thesis by simp
    next
      case False
      then obtain x where x: "x \<in> set cs" "isspace x" by blast
      then have t2: "takeWhile (\<lambda>x. \<not> isspace x) (cs @ sfx) = takeWhile (\<lambda>x. \<not> isspace x) cs"
        by (simp add: takeWhile_append1 [of x])
      have d2: "dropWhile (\<lambda>x. \<not> isspace x) (cs @ sfx) = dropWhile (\<lambda>x. \<not> isspace x) cs @ sfx"
        using x by (simp add: dropWhile_append1 [of x])
      have ih: "split (dropWhile (\<lambda>x. \<not> isspace x) cs @ sfx) = split (dropWhile (\<lambda>x. \<not> isspace x) cs)"
        using 1(1) [OF Cons] 1(2) by simp
      have "split (s @ sfx) =
          (c # takeWhile (\<lambda>x. \<not> isspace x) cs) # split (dropWhile (\<lambda>x. \<not> isspace x) cs)"
        by (subst split.simps) (simp add: d t2 d2 ih)
      also have "\<dots> = split s"
        by (subst (2) split.simps) (simp add: Cons)
      finally show ?thesis .
    qed
  qed
qed

lemma split_strip: "split (strip s) = split s"
proof -
  let ?t = "dropWhile isspace s"
  have "rev (rev ?t) = rev (takeWhile isspace (rev ?t) @ dropWhile isspace (rev ?t))"
    by (simp only: takeWhile_dropWhile_id)
  then have e: "?t = rev (dropWhile isspace (rev ?t)) @ rev (takeWhile isspace (rev ?t))"
    by (simp only: rev_append rev_rev_ident)
  have "\<forall>c \<in> set (rev (takeWhile isspace (rev ?t))). isspace c"
    by (auto dest: set_takeWhileD)
  then have "split (rev (dropWhile isspace (rev ?t)) @ rev (takeWhile isspace (rev ?t)))
      = split (rev (dropWhile isspace (rev ?t)))"
    by (rule split_append_spaces)
  with e have "split ?t = split (rev (dropWhile isspace (rev ?t)))"
    by simp
  then show ?thesis
    by (simp add: strip_def split_dropWhile)
qed

text \<open>A word, as \<open>split\<close> produces them: not empty, and free of white space.\<close>

definition word :: "pystr \<Rightarrow> bool" where
  "word w \<longleftrightarrow> w \<noteq> [] \<and> \<not> list_ex isspace w"

lemma word_iff: "word w \<longleftrightarrow> w \<noteq> [] \<and> (\<forall>c \<in> set w. \<not> isspace c)"
  by (simp add: word_def list_ex_iff)

lemma split_words: "list_all word (split s)"
proof (induction s rule: split.induct)
  case (1 s)
  show ?case
  proof (cases "dropWhile isspace s")
    case Nil
    have "split s = []" by (subst split.simps) (simp only: Nil list.case)
    then show ?thesis by simp
  next
    case (Cons c cs)
    then have "\<not> isspace c"
      using hd_dropWhile [of isspace s] by simp
    then have "word (c # takeWhile (\<lambda>x. \<not> isspace x) cs)"
      by (auto simp: word_iff dest: set_takeWhileD)
    with 1 [OF Cons] show ?thesis
      by (subst split.simps) (simp add: Cons)
  qed
qed

lemma split_word_Cons:
  assumes "word w" and "rest = [] \<or> isspace (hd rest)"
  shows "split (w @ rest) = w # split rest"
proof -
  from assms(1) obtain c cs where w: "w = c # cs" and c: "\<not> isspace c"
    and cs: "\<forall>x \<in> set cs. \<not> isspace x"
    by (cases w) (auto simp: word_iff)
  have t: "takeWhile (\<lambda>x. \<not> isspace x) (cs @ rest) = cs"
    using cs assms(2) by (cases rest) (simp_all add: takeWhile_append2)
  have d: "dropWhile (\<lambda>x. \<not> isspace x) (cs @ rest) = rest"
    using cs assms(2) by (cases rest) (simp_all add: dropWhile_append2)
  show ?thesis
    by (subst split.simps) (simp add: w c t d)
qed

lemma split_join: "list_all word ws \<Longrightarrow> split (join [32] ws) = ws"
proof (induction "[32::nat]" ws rule: join.induct)
  case 1
  then show ?case by simp
next
  case (2 w)
  then show ?case using split_word_Cons [of w "[]"] by simp
next
  case (3 w v ws)
  then have "split (w @ 32 # join [32] (v # ws)) = w # split (32 # join [32] (v # ws))"
    using split_word_Cons [of w "32 # join [32] (v # ws)"] by simp
  with 3 show ?case by (simp add: split_space_Cons)
qed

lemma normalize_idem: "normalize_answer (normalize_answer s) = normalize_answer s"
  by (simp add: normalize_answer_def split_strip split_join split_words)

lemma collapse_runs_word:
  "\<forall>c \<in> set xs. \<not> isspace c \<Longrightarrow> collapse_runs (xs @ ys) = xs @ collapse_runs ys"
  by (induction xs) auto

lemma split_eq_Nil: "split r = [] \<longleftrightarrow> (\<forall>c \<in> set r. isspace c)"
proof
  assume "split r = []"
  then have "dropWhile isspace r = []"
    by (subst (asm) split.simps) (simp split: list.splits)
  then show "\<forall>c \<in> set r. isspace c"
    by (simp only: dropWhile_eq_Nil_conv)
next
  assume "\<forall>c \<in> set r. isspace c"
  then show "split r = []" by (rule split_all_space)
qed

lemma join_Cons: "ws \<noteq> [] \<Longrightarrow> join sep (w # ws) = w @ sep @ join sep ws"
  by (cases ws) simp_all

lemma join_split_collapse:
  "t = [] \<or> \<not> isspace (last t) \<Longrightarrow>
   join [32] (split t) = collapse_runs (dropWhile isspace t)"
proof (induction t rule: split.induct)
  case (1 s)
  show ?case
  proof (cases "dropWhile isspace s")
    case Nil
    have "split s = []" by (subst split.simps) (simp only: Nil list.case)
    then show ?thesis by (simp only: Nil join.simps collapse_runs.simps)
  next
    case (Cons c cs)
    let ?w = "takeWhile (\<lambda>x. \<not> isspace x) cs"
    let ?r = "dropWhile (\<lambda>x. \<not> isspace x) cs"
    have c: "\<not> isspace c"
      using hd_dropWhile [of isspace s] Cons by simp
    have sp: "split s = (c # ?w) # split ?r"
      by (subst split.simps) (simp add: Cons)
    have "collapse_runs (c # cs) = collapse_runs ((c # ?w) @ ?r)"
      by simp
    also have "\<dots> = (c # ?w) @ collapse_runs ?r"
      using c by (intro collapse_runs_word) (auto dest: set_takeWhileD)
    finally have co: "collapse_runs (dropWhile isspace s) = (c # ?w) @ collapse_runs ?r"
      by (simp add: Cons)
    have s: "s = takeWhile isspace s @ c # ?w @ ?r"
      using takeWhile_dropWhile_id [of isspace s] Cons by simp
    show ?thesis
    proof (cases ?r)
      case Nil
      have sr: "split ?r = []" by (simp only: Nil split_Nil)
      have cr: "collapse_runs ?r = []" by (simp only: Nil collapse_runs.simps)
      show ?thesis by (simp only: sp co sr cr join.simps append_Nil2)
    next
      case r: (Cons x r')
      then have x: "isspace x"
        using hd_dropWhile [of "\<lambda>x. \<not> isspace x" cs] by simp
      have "last s = last ?r"
        by (subst s) (simp add: r)
      with 1(2) s have p: "\<not> isspace (last ?r)" by auto
      then have ih: "join [32] (split ?r) = collapse_runs (dropWhile isspace ?r)"
        using 1(1) [OF Cons] by simp
      have "last ?r \<in> set ?r" by (simp add: r)
      with p have ne: "split ?r \<noteq> []"
        by (auto simp: split_eq_Nil)
      have "collapse_runs ?r = 32 # collapse_runs (dropWhile isspace ?r)"
        using x by (simp add: r)
      with ih have "collapse_runs ?r = 32 # join [32] (split ?r)" by simp
      then show ?thesis
        by (simp add: sp co join_Cons [OF ne])
    qed
  qed
qed

lemma strip_ends:
  "(strip s = [] \<or> \<not> isspace (last (strip s))) \<and> dropWhile isspace (strip s) = strip s"
proof -
  let ?u = "dropWhile isspace s"
  let ?v = "dropWhile isspace (rev ?u)"
  have v: "strip s = rev ?v" by (simp add: strip_def)
  show ?thesis
  proof (cases ?v)
    case Nil
    have "strip s = []" by (simp only: v Nil rev.simps)
    then show ?thesis by simp
  next
    case (Cons y ys)
    then have y: "\<not> isspace y"
      using hd_dropWhile [of isspace "rev ?u"] by simp
    have l: "last (strip s) = y" by (simp add: v Cons)
    have "rev ?u = takeWhile isspace (rev ?u) @ ?v"
      by simp
    then have "rev (rev ?u) = rev (takeWhile isspace (rev ?u) @ ?v)"
      by (simp only:)
    then have "?u = rev ?v @ rev (takeWhile isspace (rev ?u))"
      by (simp only: rev_append rev_rev_ident)
    then have u: "?u = strip s @ rev (takeWhile isspace (rev ?u))"
      by (simp only: v)
    have ne: "strip s \<noteq> []" by (simp add: v Cons)
    then have "hd ?u = hd (strip s)"
      by (subst u) simp
    moreover have "?u \<noteq> []"
    proof
      assume e: "?u = []"
      have "strip s = []" by (simp only: v e rev.simps dropWhile.simps)
      with ne show False by simp
    qed
    ultimately have "\<not> isspace (hd (strip s))"
      using hd_dropWhile [of isspace s] by simp
    then have "dropWhile isspace (strip s) = strip s"
      using ne by (cases "strip s") simp_all
    with l y show ?thesis by simp
  qed
qed

lemma normalize_answer_spec: "normalize_answer s = spec_normalize s"
  using join_split_collapse [of "strip s"] strip_ends [of s]
  by (simp add: normalize_answer_def spec_normalize_def)

lemma check_answer_iff:
  "check_answer s A \<longleftrightarrow> normalize_answer s \<in> normalize_answer ` set A"
  by (induction A) auto

lemma py_ls_a: "py ''ls -a'' = [108, 115, 32, 45, 97]"
  by (simp add: py_def)

lemma py_ls_2a: "py ''ls  -a'' = [108, 115, 32, 32, 45, 97]"
  by (simp add: py_def)

lemma py_ls_3a: "py ''ls   -a'' = [108, 115, 32, 32, 32, 45, 97]"
  by (simp add: py_def)

lemma normalize_ls_a: "normalize_answer [108, 115, 32, 45, 97] = [108, 115, 32, 45, 97]"
  by (simp add: normalize_answer_def strip_def split.simps isspace_def)

lemma normalize_ls_2a: "normalize_answer [108, 115, 32, 32, 45, 97] = [108, 115, 32, 45, 97]"
  by (simp add: normalize_answer_def strip_def split.simps isspace_def)

lemma normalize_ls_3a: "normalize_answer [108, 115, 32, 32, 32, 45, 97] = [108, 115, 32, 45, 97]"
  by (simp add: normalize_answer_def strip_def split.simps isspace_def)

text \<open>
  C7, as the claim states it: the matcher returns true exactly when the normalised
  submission is one of the accepted answers as they are stored. This fails for the
  submission \<open>ls -a\<close> against the accepted list \<open>["ls  -a"]\<close> (two spaces): the matcher
  returns true, and the normalised submission is not in the list.
\<close>

theorem check_answer_raw_accepted_counterexample:
  "check_answer (py ''ls -a'') [py ''ls  -a''] \<and>
   normalize_answer (py ''ls -a'') \<notin> set [py ''ls  -a''] \<and>
   spec_normalize (py ''ls -a'') \<notin> set [py ''ls  -a'']"
  by (simp add: normalize_answer_spec [symmetric] py_ls_a py_ls_2a normalize_ls_a
      normalize_ls_2a)

text \<open>
  C7, amended: for every submission and every list of accepted answers, the matcher
  returns true if and only if the normalised submission is equal to the normalised form
  of at least one accepted answer; the comparison of the two normal forms is plain
  equality of strings (case and punctuation count); and the normal form is the string
  trimmed of the white space at its ends, with every run of white space inside replaced
  by one space.
\<close>

theorem check_answer_normalized_iff:
  "(check_answer s A \<longleftrightarrow> (\<exists>a \<in> set A. normalize_answer a = normalize_answer s)) \<and>
   normalize_answer s = spec_normalize s"
proof
  show "check_answer s A \<longleftrightarrow> (\<exists>a \<in> set A. normalize_answer a = normalize_answer s)"
    by (induction A) auto
  show "normalize_answer s = spec_normalize s"
    by (rule normalize_answer_spec)
qed

text \<open>
  C8: the normalisation is idempotent, in the program's words and in the specification's, and \<open>ls   -a\<close> (three spaces) and \<open>ls -a\<close>
  have the same normal form, \<open>ls -a\<close>.
\<close>

theorem normalize_answer_idempotent:
  "normalize_answer (normalize_answer s) = normalize_answer s \<and>
   spec_normalize (spec_normalize s) = spec_normalize s \<and>
   normalize_answer (py ''ls   -a'') = normalize_answer (py ''ls -a'') \<and>
   normalize_answer (py ''ls -a'') = py ''ls -a''"
  by (simp add: normalize_answer_spec [symmetric] normalize_idem py_ls_a py_ls_3a
      normalize_ls_a normalize_ls_3a)

text \<open>
  C10: the matcher gives the same verdict on a list of accepted answers and on the list
  of their normal forms; an accepted answer stored with three spaces matches the
  submission typed with one.
\<close>

theorem check_answer_map_normalize:
  "check_answer s A = check_answer s (map normalize_answer A) \<and>
   check_answer (py ''ls -a'') [py ''ls   -a'']"
  by (simp add: check_answer_iff image_image normalize_idem py_ls_a py_ls_3a
      normalize_ls_a normalize_ls_3a)

section \<open>Properties of the progress store\<close>

lemma unlock_fields:
  "total_exercises (data (unlock as t)) = total_exercises (data t) \<and>
   correct_answers (data (unlock as t)) = correct_answers (data t) \<and>
   streak (data (unlock as t)) = streak (data t) \<and>
   best_streak (data (unlock as t)) = best_streak (data t) \<and>
   categories_completed (data (unlock as t)) = categories_completed (data t) \<and>
   commands_practiced (data (unlock as t)) = commands_practiced (data t) \<and>
   last_practice (data (unlock as t)) = last_practice (data t) \<and>
   wrong_answers (data (unlock as t)) = wrong_answers (data t) \<and>
   progress_file (unlock as t) = progress_file t"
  by (induction as arbitrary: t) simp_all

lemma unlock_fresh:
  "distinct as \<Longrightarrow> set as \<inter> set (achievements (data t)) = {} \<Longrightarrow>
   achievements (data (unlock as t)) = achievements (data t) @ as \<and>
   terminal (unlock as t) = terminal t @ map Unlocked as"
  by (induction as arbitrary: t) auto

lemma names_distinct:
  "distinct [beginner, practice_expert, terminal_master, streak_rookie, streak_expert,
     streak_master]"
  by (simp add: beginner_def practice_expert_def terminal_master_def streak_rookie_def
      streak_expert_def streak_master_def)

lemma earned_iff:
  "a \<in> set (earned d) \<longleftrightarrow> threshold_met d a \<and> a \<notin> set (achievements d)"
  by (auto simp: earned_def threshold_met_def)

lemma distinct_picks:
  "distinct (map snd ps) \<Longrightarrow>
   distinct (concat (map (\<lambda>p. if fst p then [snd p] else []) ps)) \<and>
   set (concat (map (\<lambda>p. if fst p then [snd p] else []) ps)) \<subseteq> snd ` set ps"
  by (induction ps) auto

lemma earned_picks:
  "earned d =
     concat (map (\<lambda>p. if fst p then [snd p] else [])
       [(total_exercises d \<ge> 10 \<and> beginner \<notin> set (achievements d), beginner),
        (total_exercises d \<ge> 50 \<and> practice_expert \<notin> set (achievements d), practice_expert),
        (total_exercises d \<ge> 100 \<and> terminal_master \<notin> set (achievements d), terminal_master),
        (streak d \<ge> 5 \<and> streak_rookie \<notin> set (achievements d), streak_rookie),
        (streak d \<ge> 10 \<and> streak_expert \<notin> set (achievements d), streak_expert),
        (best_streak d \<ge> 20 \<and> streak_master \<notin> set (achievements d), streak_master)])"
  by (simp only: earned_def concat.simps list.map fst_conv snd_conv append_Nil2)

lemma earned_distinct: "distinct (earned d)"
proof -
  have "distinct (map snd
       [(total_exercises d \<ge> 10 \<and> beginner \<notin> set (achievements d), beginner),
        (total_exercises d \<ge> 50 \<and> practice_expert \<notin> set (achievements d), practice_expert),
        (total_exercises d \<ge> 100 \<and> terminal_master \<notin> set (achievements d), terminal_master),
        (streak d \<ge> 5 \<and> streak_rookie \<notin> set (achievements d), streak_rookie),
        (streak d \<ge> 10 \<and> streak_expert \<notin> set (achievements d), streak_expert),
        (best_streak d \<ge> 20 \<and> streak_master \<notin> set (achievements d), streak_master)])"
    using names_distinct by (simp only: list.map snd_conv)
  then show ?thesis
    unfolding earned_picks by (rule distinct_picks [THEN conjunct1])
qed

lemma earned_fresh: "set (earned d) \<inter> set (achievements d) = {}"
  by (auto simp: earned_iff)

lemma check_achievements_eq:
  "achievements (data (check_achievements t)) = achievements (data t) @ earned (data t) \<and>
   terminal (check_achievements t) = terminal t @ map Unlocked (earned (data t))"
  unfolding check_achievements_def
  by (rule unlock_fresh [OF earned_distinct earned_fresh])

lemma filter_picks: "filter P xs = concat (map (\<lambda>x. if P x then [x] else []) xs)"
  by (induction xs) auto

lemma names_neq:
  "beginner \<noteq> practice_expert" "beginner \<noteq> terminal_master" "beginner \<noteq> streak_rookie"
  "beginner \<noteq> streak_expert" "beginner \<noteq> streak_master"
  "practice_expert \<noteq> terminal_master" "practice_expert \<noteq> streak_rookie"
  "practice_expert \<noteq> streak_expert" "practice_expert \<noteq> streak_master"
  "terminal_master \<noteq> streak_rookie" "terminal_master \<noteq> streak_expert"
  "terminal_master \<noteq> streak_master"
  "streak_rookie \<noteq> streak_expert" "streak_rookie \<noteq> streak_master"
  "streak_expert \<noteq> streak_master"
  using names_distinct by simp_all

lemma threshold_met_names:
  "threshold_met d beginner \<longleftrightarrow> 10 \<le> total_exercises d"
  "threshold_met d practice_expert \<longleftrightarrow> 50 \<le> total_exercises d"
  "threshold_met d terminal_master \<longleftrightarrow> 100 \<le> total_exercises d"
  "threshold_met d streak_rookie \<longleftrightarrow> 5 \<le> streak d"
  "threshold_met d streak_expert \<longleftrightarrow> 10 \<le> streak d"
  "threshold_met d streak_master \<longleftrightarrow> 20 \<le> best_streak d"
  using names_neq names_neq [symmetric] by (simp_all add: threshold_met_def)

lemma earned_filter:
  "earned d =
     filter (\<lambda>a. threshold_met d a \<and> a \<notin> set (achievements d))
       [beginner, practice_expert, terminal_master, streak_rookie, streak_expert,
        streak_master]"
  by (simp only: filter_picks earned_def concat.simps list.map append_Nil2
      threshold_met_names)

lemma threshold_met_counters:
  "total_exercises d' = total_exercises d \<Longrightarrow> streak d' = streak d \<Longrightarrow>
   best_streak d' = best_streak d \<Longrightarrow> threshold_met d' a = threshold_met d a"
  by (simp add: threshold_met_def)

lemma earned_again: "earned (data (check_achievements t)) = []"
proof -
  let ?t = "check_achievements t"
  have c: "threshold_met (data ?t) a = threshold_met (data t) a" for a
    by (rule threshold_met_counters) (simp_all add: check_achievements_def unlock_fields)
  have "a \<notin> set (earned (data ?t))" for a
    by (simp add: earned_iff [of a "data ?t"] c check_achievements_eq earned_iff [of a "data t"])
  then show ?thesis
    by (cases "earned (data ?t)") auto
qed

lemma record_attempt_shape:
  "\<exists>d. record_attempt cat cmd ok now t = save (check_achievements (t\<lparr>data := d\<rparr>)) \<and>
       achievements d = achievements (data t) \<and>
       wrong_answers d = wrong_answers (data t)"
  unfolding record_attempt_def Let_def
  apply (rule exI)
  apply (rule conjI)
   apply (rule refl)
  apply simp
  done

lemma check_achievements_filter:
  "achievements (data (save (check_achievements t))) =
     achievements (data t) @
     filter (\<lambda>a. threshold_met (data (save (check_achievements t))) a \<and>
                 a \<notin> set (achievements (data t)))
       [beginner, practice_expert, terminal_master, streak_rookie, streak_expert,
        streak_master]"
proof -
  have c: "threshold_met (data (check_achievements t)) a = threshold_met (data t) a" for a
    by (rule threshold_met_counters) (simp_all add: check_achievements_def unlock_fields)
  have s: "data (save (check_achievements t)) = data (check_achievements t)"
    by (simp add: save_def)
  show ?thesis
    unfolding s c by (simp only: check_achievements_eq earned_filter)
qed

lemma record_attempt_achievements:
  "achievements (data (record_attempt cat cmd ok now t)) =
     achievements (data t) @
     filter (\<lambda>a. threshold_met (data (record_attempt cat cmd ok now t)) a \<and>
                 a \<notin> set (achievements (data t)))
       [beginner, practice_expert, terminal_master, streak_rookie, streak_expert,
        streak_master]"
proof -
  obtain d where r: "record_attempt cat cmd ok now t = save (check_achievements (t\<lparr>data := d\<rparr>))"
    and a: "achievements d = achievements (data t)"
    using record_attempt_shape by blast
  have "achievements (data (t\<lparr>data := d\<rparr>)) = achievements (data t)"
    using a by simp
  then show ?thesis
    unfolding r using check_achievements_filter [of "t\<lparr>data := d\<rparr>"] by (simp only:)
qed

lemma filter_fresh: "set (filter (\<lambda>a. P a \<and> a \<notin> set ys) xs) \<inter> set ys = {}"
  by auto

lemma apply_op_achievements:
  "\<exists>e. achievements (data (apply_op x t)) = achievements (data t) @ e \<and> distinct e \<and>
       set e \<inter> set (achievements (data t)) = {}"
proof (cases x)
  case (RecordAttempt cat cmd ok now)
  show ?thesis
    unfolding RecordAttempt apply_op.simps
    apply (subst record_attempt_achievements)
    apply (rule exI)
    apply (rule conjI)
     apply (rule refl)
    apply (rule conjI)
     apply (rule distinct_filter)
     apply (rule names_distinct)
    apply (rule filter_fresh)
    done
next
  case (RecordWrongAnswer cat cmd q ans ua now)
  then show ?thesis
    by (simp add: record_wrong_answer_def Let_def ensure_wrong_answers_def)
next
  case (RemoveWrongAnswer key)
  then show ?thesis
    by (simp add: remove_wrong_answer_def Let_def ensure_wrong_answers_def)
qed

lemma run_ops_achievements:
  "\<exists>new. achievements (data (run_ops ops t)) = achievements (data t) @ new \<and> distinct new \<and>
       set new \<inter> set (achievements (data t)) = {}"
proof (induction ops arbitrary: t)
  case Nil
  show ?case by simp
next
  case (Cons x ops)
  obtain e where e: "achievements (data (apply_op x t)) = achievements (data t) @ e"
    "distinct e" "set e \<inter> set (achievements (data t)) = {}"
    using apply_op_achievements by blast
  obtain new where n: "achievements (data (run_ops ops (apply_op x t))) =
      achievements (data (apply_op x t)) @ new" "distinct new"
    "set new \<inter> set (achievements (data (apply_op x t))) = {}"
    using Cons.IH by blast
  have "achievements (data (run_ops (x # ops) t)) = achievements (data t) @ (e @ new)"
    by (simp add: n(1) e(1))
  moreover have "distinct (e @ new)"
    using e(2) n(2) n(3) by (auto simp: e(1))
  moreover have "set (e @ new) \<inter> set (achievements (data t)) = {}"
    using e(3) n(3) by (auto simp: e(1))
  ultimately show ?case by blast
qed

lemma record_attempt_fields:
  "total_exercises (data (record_attempt cat cmd ok now t)) = total_exercises (data t) + 1 \<and>
   correct_answers (data (record_attempt cat cmd ok now t)) =
     (if ok then correct_answers (data t) + 1 else correct_answers (data t)) \<and>
   streak (data (record_attempt cat cmd ok now t)) = (if ok then streak (data t) + 1 else 0) \<and>
   best_streak (data (record_attempt cat cmd ok now t)) =
     (if ok then max (best_streak (data t)) (streak (data t) + 1) else best_streak (data t)) \<and>
   wrong_answers (data (record_attempt cat cmd ok now t)) = wrong_answers (data t) \<and>
   progress_file (record_attempt cat cmd ok now t) =
     Some (data (record_attempt cat cmd ok now t))"
  by (simp add: record_attempt_def Let_def save_def check_achievements_def unlock_fields)

lemma wrong_book_ensure: "wrong_book (ensure_wrong_answers t) = wrong_book t"
  by (simp add: wrong_book_def ensure_wrong_answers_def)

lemma wrong_book_set:
  "wrong_book (t\<lparr>data := (data t)\<lparr>wrong_answers := Some m\<rparr>\<rparr>) = m"
  by (simp add: wrong_book_def)

lemma record_wrong_answer_book:
  "wrong_book (record_wrong_answer cat cmd q ans ua now t) =
     (if map_of (wrong_book t) (wrong_key cat cmd q) \<noteq> None then
        AList.map_entry (wrong_key cat cmd q)
          (\<lambda>entry. entry\<lparr>wrong_count := wrong_count entry + 1, last_wrong := now,
                          last_user_answer := ua\<rparr>)
          (wrong_book t)
      else
        AList.update (wrong_key cat cmd q)
          \<lparr>category = cat, command = cmd, question = q, answers = ans, wrong_count = 1,
           last_wrong = now, last_user_answer = ua\<rparr>
          (wrong_book t))"
  by (simp add: record_wrong_answer_def Let_def wrong_book_ensure wrong_book_set)

lemma record_wrong_answer_rest:
  "progress_file (record_wrong_answer cat cmd q ans ua now t) = progress_file t \<and>
   terminal (record_wrong_answer cat cmd q ans ua now t) = terminal t \<and>
   (data (record_wrong_answer cat cmd q ans ua now t))\<lparr>wrong_answers := w\<rparr> =
     (data t)\<lparr>wrong_answers := w\<rparr>"
  by (simp add: record_wrong_answer_def Let_def ensure_wrong_answers_def)

lemma remove_wrong_answer_book:
  "wrong_book (remove_wrong_answer key t) = AList.delete key (wrong_book t)"
proof (cases "map_of (wrong_book t) key = None")
  case True
  then have "key \<notin> fst ` set (wrong_book t)"
    by (simp add: map_of_eq_None_iff)
  then have "AList.delete key (wrong_book t) = wrong_book t"
    by (rule AList.delete_id)
  with True show ?thesis
    by (simp add: remove_wrong_answer_def Let_def wrong_book_ensure)
next
  case False
  then show ?thesis
    by (simp add: remove_wrong_answer_def Let_def wrong_book_ensure wrong_book_set)
qed

lemma remove_wrong_answer_rest:
  "progress_file (remove_wrong_answer key t) = progress_file t \<and>
   terminal (remove_wrong_answer key t) = terminal t \<and>
   (data (remove_wrong_answer key t))\<lparr>wrong_answers := w\<rparr> = (data t)\<lparr>wrong_answers := w\<rparr>"
  by (simp add: remove_wrong_answer_def Let_def ensure_wrong_answers_def)

lemma field_of_rest:
  assumes "\<And>w. d'\<lparr>wrong_answers := w\<rparr> = d\<lparr>wrong_answers := w\<rparr>"
  shows "total_exercises d' = total_exercises d" "correct_answers d' = correct_answers d"
    "streak d' = streak d" "best_streak d' = best_streak d"
proof -
  have e: "d'\<lparr>wrong_answers := None\<rparr> = d\<lparr>wrong_answers := None\<rparr>" by (rule assms)
  show "total_exercises d' = total_exercises d"
    using arg_cong [OF e, of total_exercises] by simp
  show "correct_answers d' = correct_answers d"
    using arg_cong [OF e, of correct_answers] by simp
  show "streak d' = streak d"
    using arg_cong [OF e, of streak] by simp
  show "best_streak d' = best_streak d"
    using arg_cong [OF e, of best_streak] by simp
qed

lemma apply_op_invariant:
  assumes "0 \<le> streak (data t)" and "streak (data t) \<le> best_streak (data t)"
    and "correct_answers (data t) \<le> total_exercises (data t)"
    and "distinct (map fst (wrong_book t))"
  shows "0 \<le> streak (data (apply_op x t)) \<and>
    streak (data (apply_op x t)) \<le> best_streak (data (apply_op x t)) \<and>
    correct_answers (data (apply_op x t)) \<le> total_exercises (data (apply_op x t)) \<and>
    distinct (map fst (wrong_book (apply_op x t)))"
proof (cases x)
  case (RecordAttempt cat cmd ok now)
  have "wrong_book (record_attempt cat cmd ok now t) = wrong_book t"
    by (simp add: wrong_book_def record_attempt_fields)
  with assms show ?thesis
    by (simp add: RecordAttempt record_attempt_fields)
next
  case (RecordWrongAnswer cat cmd q ans ua now)
  have "distinct (map fst (wrong_book (record_wrong_answer cat cmd q ans ua now t)))"
    using assms(4)
    by (simp add: record_wrong_answer_book AList.distinct_update AList.distinct_map_entry)
  with assms show ?thesis
    by (simp add: RecordWrongAnswer field_of_rest [OF record_wrong_answer_rest [THEN conjunct2, THEN conjunct2]])
next
  case (RemoveWrongAnswer key)
  have "distinct (map fst (wrong_book (remove_wrong_answer key t)))"
    using assms(4) by (simp add: remove_wrong_answer_book AList.distinct_delete)
  with assms show ?thesis
    by (simp add: RemoveWrongAnswer field_of_rest [OF remove_wrong_answer_rest [THEN conjunct2, THEN conjunct2]])
qed

lemma run_ops_invariant:
  "0 \<le> streak (data t) \<Longrightarrow> streak (data t) \<le> best_streak (data t) \<Longrightarrow>
   correct_answers (data t) \<le> total_exercises (data t) \<Longrightarrow>
   distinct (map fst (wrong_book t)) \<Longrightarrow>
   0 \<le> streak (data (run_ops ops t)) \<and>
   streak (data (run_ops ops t)) \<le> best_streak (data (run_ops ops t)) \<and>
   correct_answers (data (run_ops ops t)) \<le> total_exercises (data (run_ops ops t)) \<and>
   distinct (map fst (wrong_book (run_ops ops t)))"
proof (induction ops arbitrary: t)
  case Nil
  then show ?case by simp
next
  case (Cons x ops)
  have "0 \<le> streak (data (apply_op x t)) \<and>
    streak (data (apply_op x t)) \<le> best_streak (data (apply_op x t)) \<and>
    correct_answers (data (apply_op x t)) \<le> total_exercises (data (apply_op x t)) \<and>
    distinct (map fst (wrong_book (apply_op x t)))"
    using Cons.prems by (rule apply_op_invariant)
  then show ?case
    using Cons.IH [of "apply_op x t"] by simp
qed

lemma sort_reverse_sorted:
  "sorted_wrt (\<lambda>x y. f x \<ge> f y) (sort_reverse f xs)"
proof -
  have "sorted (map f (sort_key f (rev xs)))" by (rule sorted_sort_key)
  then have "sorted_wrt (\<lambda>x y. f x \<le> f y) (sort_key f (rev xs))"
    by (simp only: sorted_map)
  then show ?thesis
    by (simp add: sort_reverse_def sorted_wrt_rev)
qed

lemma sort_reverse_mset: "mset (sort_reverse f xs) = mset xs"
  by (simp add: sort_reverse_def)

lemma wrong_book_record_attempt:
  "wrong_book (record_attempt cat cmd ok now t) = wrong_book t"
  by (simp add: wrong_book_def record_attempt_fields)

lemma record_wrong_answer_map:
  "map_of (wrong_book (record_wrong_answer cat cmd q ans ua now t)) =
     (map_of (wrong_book t))(wrong_key cat cmd q \<mapsto>
        (case map_of (wrong_book t) (wrong_key cat cmd q) of
           Some entry \<Rightarrow>
             entry\<lparr>wrong_count := wrong_count entry + 1, last_wrong := now,
                   last_user_answer := ua\<rparr>
         | None \<Rightarrow>
             \<lparr>category = cat, command = cmd, question = q, answers = ans, wrong_count = 1,
              last_wrong = now, last_user_answer = ua\<rparr>))"
  by (auto simp: record_wrong_answer_book AList.map_of_map_entry AList.update_conv')


lemma wrong_book_init: "wrong_book (init None) = []"
  by (simp add: init_def load_progress_def default_progress_def wrong_book_def)

lemma example_tracker_book: "wrong_book example_tracker = [example_item]"
  by (simp add: example_tracker_def example_item_def wrong_book_record_attempt
      record_wrong_answer_book wrong_book_init)

text \<open>
  C1: \<open>record_attempt\<close> adds one to \<open>total_exercises\<close>; on a correct answer it adds
  one to \<open>correct_answers\<close> and to \<open>streak\<close> and sets \<open>best_streak\<close> to the maximum
  of its old value and the new streak; on an incorrect answer it sets \<open>streak\<close> to 0
  and leaves \<open>correct_answers\<close> and \<open>best_streak\<close> as they were.
\<close>

theorem record_attempt_counters:
  "total_exercises (data (record_attempt cat cmd ok now t)) = total_exercises (data t) + 1 \<and>
   correct_answers (data (record_attempt cat cmd ok now t)) =
     (if ok then correct_answers (data t) + 1 else correct_answers (data t)) \<and>
   streak (data (record_attempt cat cmd ok now t)) = (if ok then streak (data t) + 1 else 0) \<and>
   best_streak (data (record_attempt cat cmd ok now t)) =
     (if ok then max (best_streak (data t)) (streak (data t) + 1) else best_streak (data t))"
  by (simp add: record_attempt_fields)




text \<open>
  C4: \<open>record_wrong_answer\<close> computes the key \<open>category::command::question\<close>; an
  entry under that key gets its \<open>wrong_count\<close> incremented and its \<open>last_wrong\<close> and
  \<open>last_user_answer\<close> overwritten, and a new entry with \<open>wrong_count = 1\<close> is inserted
  when there is none; the other entries and fields are unchanged, and the file is not
  written. From the default state, a first miss leaves one entry with \<open>wrong_count = 1\<close>
  and a second miss on the same key leaves it with \<open>wrong_count = 2\<close>, the new time and
  the new answer.
\<close>

theorem record_wrong_answer_entry:
  "wrong_key cat cmd q = cat @ py ''::'' @ cmd @ py ''::'' @ q \<and>
   map_of (wrong_book (record_wrong_answer cat cmd q ans ua now t)) =
     (map_of (wrong_book t))(wrong_key cat cmd q \<mapsto>
        (case map_of (wrong_book t) (wrong_key cat cmd q) of
           Some entry \<Rightarrow>
             entry\<lparr>wrong_count := wrong_count entry + 1, last_wrong := now,
                   last_user_answer := ua\<rparr>
         | None \<Rightarrow>
             \<lparr>category = cat, command = cmd, question = q, answers = ans, wrong_count = 1,
              last_wrong = now, last_user_answer = ua\<rparr>)) \<and>
   (data (record_wrong_answer cat cmd q ans ua now t))\<lparr>wrong_answers := w\<rparr> =
     (data t)\<lparr>wrong_answers := w\<rparr> \<and>
   progress_file (record_wrong_answer cat cmd q ans ua now t) = progress_file t \<and>
   wrong_book (record_wrong_answer cat cmd q ans ua now (init None)) =
     [(wrong_key cat cmd q,
       \<lparr>category = cat, command = cmd, question = q, answers = ans, wrong_count = 1,
        last_wrong = now, last_user_answer = ua\<rparr>)] \<and>
   wrong_book (record_wrong_answer cat cmd q ans' ua' now'
       (record_wrong_answer cat cmd q ans ua now (init None))) =
     [(wrong_key cat cmd q,
       \<lparr>category = cat, command = cmd, question = q, answers = ans, wrong_count = 2,
        last_wrong = now', last_user_answer = ua'\<rparr>)]"
proof (intro conjI)
  show "wrong_key cat cmd q = cat @ py ''::'' @ cmd @ py ''::'' @ q"
    by (simp add: wrong_key_def)
  show "map_of (wrong_book (record_wrong_answer cat cmd q ans ua now t)) =
     (map_of (wrong_book t))(wrong_key cat cmd q \<mapsto>
        (case map_of (wrong_book t) (wrong_key cat cmd q) of
           Some entry \<Rightarrow>
             entry\<lparr>wrong_count := wrong_count entry + 1, last_wrong := now,
                   last_user_answer := ua\<rparr>
         | None \<Rightarrow>
             \<lparr>category = cat, command = cmd, question = q, answers = ans, wrong_count = 1,
              last_wrong = now, last_user_answer = ua\<rparr>))"
    by (rule record_wrong_answer_map)
  show "(data (record_wrong_answer cat cmd q ans ua now t))\<lparr>wrong_answers := w\<rparr> =
     (data t)\<lparr>wrong_answers := w\<rparr>"
    by (simp add: record_wrong_answer_rest)
  show "progress_file (record_wrong_answer cat cmd q ans ua now t) = progress_file t"
    by (simp add: record_wrong_answer_rest)
  show "wrong_book (record_wrong_answer cat cmd q ans ua now (init None)) =
     [(wrong_key cat cmd q,
       \<lparr>category = cat, command = cmd, question = q, answers = ans, wrong_count = 1,
        last_wrong = now, last_user_answer = ua\<rparr>)]"
    by (simp add: record_wrong_answer_book wrong_book_init)
  show "wrong_book (record_wrong_answer cat cmd q ans' ua' now'
       (record_wrong_answer cat cmd q ans ua now (init None))) =
     [(wrong_key cat cmd q,
       \<lparr>category = cat, command = cmd, question = q, answers = ans, wrong_count = 2,
        last_wrong = now', last_user_answer = ua'\<rparr>)]"
    by (simp add: record_wrong_answer_book wrong_book_init)
qed

text \<open>
  C5: the achievement check appends to the achievements exactly the identifiers whose
  counter has reached its threshold and that the state does not hold, in the order of the
  table and each once, and announces them; a second check right after appends nothing;
  so does \<open>record_attempt\<close>, with the counters it has just updated; and over any
  sequence of store operations the achievements only grow, by identifiers that were not
  there and that are appended once.
\<close>

theorem achievements_appended_once:
  "achievements (data (check_achievements t)) = achievements (data t) @ earned (data t) \<and>
   terminal (check_achievements t) = terminal t @ map Unlocked (earned (data t)) \<and>
   earned (data t) =
     filter (\<lambda>a. threshold_met (data t) a \<and> a \<notin> set (achievements (data t)))
       [beginner, practice_expert, terminal_master, streak_rookie, streak_expert,
        streak_master] \<and>
   distinct [beginner, practice_expert, terminal_master, streak_rookie, streak_expert,
     streak_master] \<and>
   earned (data (check_achievements t)) = [] \<and>
   achievements (data (record_attempt cat cmd ok now t)) =
     achievements (data t) @
     filter (\<lambda>a. threshold_met (data (record_attempt cat cmd ok now t)) a \<and>
                 a \<notin> set (achievements (data t)))
       [beginner, practice_expert, terminal_master, streak_rookie, streak_expert,
        streak_master] \<and>
   (\<exists>new. achievements (data (run_ops ops t)) = achievements (data t) @ new \<and>
      distinct new \<and> set new \<inter> set (achievements (data t)) = {})"
  using check_achievements_eq [of t] earned_filter [of "data t"] names_distinct
    earned_again [of t] record_attempt_achievements [of cat cmd ok now t]
    run_ops_achievements [of ops t]
  by (intro conjI) (simp_all only:)

text \<open>
  C6: from the default state, after any sequence of \<open>record_attempt\<close>,
  \<open>record_wrong_answer\<close> and \<open>remove_wrong_answer\<close> calls, \<open>streak\<close> is at most
  \<open>best_streak\<close>, \<open>correct_answers\<close> is at most \<open>total_exercises\<close>, and no key has two
  entries in the wrong-answer registry.
\<close>

theorem store_invariants:
  "streak (data (run_ops ops (init None))) \<le> best_streak (data (run_ops ops (init None))) \<and>
   correct_answers (data (run_ops ops (init None))) \<le>
     total_exercises (data (run_ops ops (init None))) \<and>
   distinct (map fst (wrong_book (run_ops ops (init None))))"
proof -
  have "0 \<le> streak (data (run_ops ops (init None))) \<and>
    streak (data (run_ops ops (init None))) \<le> best_streak (data (run_ops ops (init None))) \<and>
    correct_answers (data (run_ops ops (init None))) \<le>
      total_exercises (data (run_ops ops (init None))) \<and>
    distinct (map fst (wrong_book (run_ops ops (init None))))"
    by (rule run_ops_invariant)
      (simp_all add: init_def load_progress_def default_progress_def wrong_book_def)
  then show ?thesis by simp
qed

text \<open>
  C9: \<open>get_wrong_exercises\<close> returns the entries of the registry, each once with its
  key and its fields, in an order in which \<open>wrong_count\<close> never increases.
\<close>

theorem get_wrong_exercises_sorted:
  "mset (fst (get_wrong_exercises t)) = mset (wrong_book t) \<and>
   sorted_wrt (\<lambda>x y. wrong_count (snd x) \<ge> wrong_count (snd y)) (fst (get_wrong_exercises t)) \<and>
   snd (get_wrong_exercises t) = ensure_wrong_answers t"
  by (simp add: get_wrong_exercises_def Let_def wrong_book_ensure sort_reverse_mset
      sort_reverse_sorted)

section \<open>Properties of the sessions\<close>

lemma control_words:
  "py ''skip'' \<noteq> py ''quit''" "py ''skip'' \<noteq> py ''hint''" "py ''quit'' \<noteq> py ''hint''"
  "py ''skip'' \<noteq> []"
  by (simp_all add: py_def)

lemma ask_skip:
  assumes "lower (strip line) = py ''skip''" and "ex_answers ex = canonical # others"
  shows "ask now cat ex (line # inputs) s =
    Next ((miss_bookkeeping now cat ex skipped (say (Skipped canonical) s))
            \<lparr>session_total := session_total s + 1\<rparr>) inputs"
  using assms
  by (simp add: control_words Let_def miss_bookkeeping_def say_def attempt_def wrong_answer_def)

lemma ask_miss:
  assumes "lower (strip sub) \<noteq> py ''quit''" and "lower (strip sub) \<noteq> py ''skip''"
    and "lower (strip sub) \<noteq> py ''hint''" and "strip sub \<noteq> []"
    and "\<not> check_answer (strip sub) (ex_answers ex)"
    and "ex_answers ex = canonical # others"
  shows "ask now cat ex (sub # inputs) s =
    Next (miss_bookkeeping now cat ex (strip sub)
            (let s = say (CanonicalAnswer canonical)
                       (say Wrong (s\<lparr>session_total := session_total s + 1\<rparr>))
             in if others \<noteq> [] then say (OtherForms others) s else s)) inputs"
  using assms
  by (simp add: Let_def miss_bookkeeping_def)

lemma miss_bookkeeping_progress:
  "progress (miss_bookkeeping now cat ex user_answer s) =
     record_wrong_answer cat (ex_command ex) (ex_question ex) (ex_answers ex) user_answer
       (now (Suc (clock s)))
       (record_attempt cat (ex_command ex) False (now (clock s)) (progress s))"
  by (simp add: miss_bookkeeping_def attempt_def wrong_answer_def)

lemma example_skip: "lower (strip (py ''skip'')) = py ''skip''"
  by (simp add: lower_def lower_char_def py_def strip_def isspace_def)

lemma example_tracker_data:
  "wrong_answers (data example_tracker) = Some [example_item] \<and>
   total_exercises (data example_tracker) = 2 \<and> streak (data example_tracker) = 1"
  using example_tracker_book
  by (simp add: wrong_book_def example_tracker_def record_attempt_fields
      field_of_rest [OF record_wrong_answer_rest [THEN conjunct2, THEN conjunct2]]
      init_def load_progress_def default_progress_def split: option.splits)

lemma example_replay:
  "get_wrong_exercises example_tracker = ([example_item], example_tracker)"
  by (simp add: get_wrong_exercises_def Let_def ensure_wrong_answers_def wrong_book_def
      example_tracker_data sort_reverse_def)

text \<open>
  What C2 says of a skip holds in single-category practice and in random practice: the
  skip shows the canonical answer, does the bookkeeping of a failed answer (the call
  \<open>record_attempt(..., False)\<close> and then the call \<open>record_wrong_answer(...)\<close>, with
  the answer recorded as skipped), counts one attempt of the session and goes on to the
  next exercise.
\<close>

theorem skip_is_missed_attempt:
  assumes "lower (strip line) = py ''skip''"
    and "ex_answers ex = canonical # others"
    and "ex_answers rex = rcanonical # rothers"
    and "lower (strip sub) \<noteq> py ''quit''" and "lower (strip sub) \<noteq> py ''skip''"
    and "lower (strip sub) \<noteq> py ''hint''" and "strip sub \<noteq> []"
    and "\<not> check_answer (strip sub) (ex_answers ex)"
  shows
    "category_loop now cat (ex # exercises) (line # inputs) s =
       category_loop now cat exercises inputs
         ((miss_bookkeeping now cat ex skipped
             (say (Skipped canonical) (s\<lparr>question_num := question_num s + 1\<rparr>)))
            \<lparr>session_total := session_total s + 1\<rparr>) \<and>
     random_loop now (rex # rexercises) (line # inputs) s =
       random_loop now rexercises inputs
         ((miss_bookkeeping now (category_key rex) rex skipped
             (say (Skipped rcanonical) (s\<lparr>question_num := question_num s + 1\<rparr>)))
            \<lparr>session_total := session_total s + 1\<rparr>) \<and>
     ask now cat ex (sub # inputs) s =
       Next (miss_bookkeeping now cat ex (strip sub)
               (let s = say (CanonicalAnswer canonical)
                          (say Wrong (s\<lparr>session_total := session_total s + 1\<rparr>))
                in if others \<noteq> [] then say (OtherForms others) s else s)) inputs \<and>
     progress (miss_bookkeeping now cat ex user_answer s) =
       record_wrong_answer cat (ex_command ex) (ex_question ex) (ex_answers ex) user_answer
         (now (Suc (clock s)))
         (record_attempt cat (ex_command ex) False (now (clock s)) (progress s))"
proof (intro conjI)
  show "category_loop now cat (ex # exercises) (line # inputs) s =
       category_loop now cat exercises inputs
         ((miss_bookkeeping now cat ex skipped
             (say (Skipped canonical) (s\<lparr>question_num := question_num s + 1\<rparr>)))
            \<lparr>session_total := session_total s + 1\<rparr>)"
    by (simp only: category_loop.simps ask_skip [OF assms(1,2)] outcome.case) simp
  show "random_loop now (rex # rexercises) (line # inputs) s =
       random_loop now rexercises inputs
         ((miss_bookkeeping now (category_key rex) rex skipped
             (say (Skipped rcanonical) (s\<lparr>question_num := question_num s + 1\<rparr>)))
            \<lparr>session_total := session_total s + 1\<rparr>)"
    by (simp only: random_loop.simps ask_skip [OF assms(1,3)] outcome.case) simp
  show "ask now cat ex (sub # inputs) s =
       Next (miss_bookkeeping now cat ex (strip sub)
               (let s = say (CanonicalAnswer canonical)
                          (say Wrong (s\<lparr>session_total := session_total s + 1\<rparr>))
                in if others \<noteq> [] then say (OtherForms others) s else s)) inputs"
    using assms(4-8) assms(2) by (rule ask_miss)
  show "progress (miss_bookkeeping now cat ex user_answer s) =
       record_wrong_answer cat (ex_command ex) (ex_question ex) (ex_answers ex) user_answer
         (now (Suc (clock s)))
         (record_attempt cat (ex_command ex) False (now (clock s)) (progress s))"
    by (rule miss_bookkeeping_progress)
qed

lemma example_sub:
  "strip (py ''ls -l'') = py ''ls -l'' \<and> lower (py ''ls -l'') = py ''ls -l''"
  by (simp add: lower_def lower_char_def py_def strip_def isspace_def)

lemma example_sub_wrong: "\<not> check_answer (py ''ls -l'') [py ''ls -a'', py ''ls -A'']"
  by (simp add: py_def normalize_answer_def strip_def split.simps isspace_def)

theorem skip_is_missed_attempt_witness:
  "lower (strip (py ''skip'')) = py ''skip'' \<and>
   ex_answers example_exercise = py ''ls -a'' # [py ''ls -A''] \<and>
   ex_answers example_random_exercise = py ''ls -a'' # [py ''ls -A''] \<and>
   lower (strip (py ''ls -l'')) \<noteq> py ''quit'' \<and>
   lower (strip (py ''ls -l'')) \<noteq> py ''skip'' \<and>
   lower (strip (py ''ls -l'')) \<noteq> py ''hint'' \<and>
   strip (py ''ls -l'') \<noteq> [] \<and>
   \<not> check_answer (strip (py ''ls -l'')) (ex_answers example_exercise) \<and>
   category_loop example_clock (py ''files'') [example_exercise] [py ''skip''] example_run =
     Next ((miss_bookkeeping example_clock (py ''files'') example_exercise skipped
              (say (Skipped (py ''ls -a'')) (example_run\<lparr>question_num := 1\<rparr>)))
             \<lparr>session_total := 1\<rparr>) [] \<and>
   random_loop example_clock [example_random_exercise] [py ''skip''] example_run =
     Next ((miss_bookkeeping example_clock (py ''files'') example_random_exercise skipped
              (say (Skipped (py ''ls -a'')) (example_run\<lparr>question_num := 1\<rparr>)))
             \<lparr>session_total := 1\<rparr>) []"
proof -
  have h1: "lower (strip (py ''skip'')) = py ''skip''" by (rule example_skip)
  have h2: "ex_answers example_exercise = py ''ls -a'' # [py ''ls -A'']"
    by (simp add: example_exercise_def)
  have h3: "ex_answers example_random_exercise = py ''ls -a'' # [py ''ls -A'']"
    by (simp add: example_random_exercise_def)
  have h4: "lower (strip (py ''ls -l'')) \<noteq> py ''quit''"
    and h5: "lower (strip (py ''ls -l'')) \<noteq> py ''skip''"
    and h6: "lower (strip (py ''ls -l'')) \<noteq> py ''hint''"
    and h7: "strip (py ''ls -l'') \<noteq> []"
    by (simp_all add: example_sub) (simp_all add: py_def)
  have h8: "\<not> check_answer (strip (py ''ls -l'')) (ex_answers example_exercise)"
    unfolding h2 example_sub [THEN conjunct1] by (simp only: list.simps example_sub_wrong not_False_eq_True)
  have k: "category_key example_random_exercise = py ''files''"
    by (simp add: example_random_exercise_def)
  have q: "question_num example_run = 0" "session_total example_run = 0"
    by (simp_all add: example_run_def)
  note t = skip_is_missed_attempt [OF h1 h2 h3 h4 h5 h6 h7 h8,
      where now = example_clock and cat = "py ''files''" and exercises = "[]"
        and rexercises = "[]" and inputs = "[]" and s = example_run]
  have c: "category_loop example_clock (py ''files'') [example_exercise] [py ''skip'']
      example_run =
     Next ((miss_bookkeeping example_clock (py ''files'') example_exercise skipped
              (say (Skipped (py ''ls -a'')) (example_run\<lparr>question_num := 1\<rparr>)))
             \<lparr>session_total := 1\<rparr>) []"
    using t [THEN conjunct1] by (simp add: q)
  have r: "random_loop example_clock [example_random_exercise] [py ''skip''] example_run =
     Next ((miss_bookkeeping example_clock (py ''files'') example_random_exercise skipped
              (say (Skipped (py ''ls -a'')) (example_run\<lparr>question_num := 1\<rparr>)))
             \<lparr>session_total := 1\<rparr>) []"
    using t [THEN conjunct2, THEN conjunct1] by (simp add: q k)
  show ?thesis
    using h1 h2 h3 h4 h5 h6 h7 h8 c r by (intro conjI)
qed

text \<open>
  In the replay of the wrong answers, a skip shows the canonical answer and goes on to
  the next item, as C2 says, but calls neither \<open>record_attempt\<close> nor
  \<open>record_wrong_answer\<close>: the tracker is as it was but for the line printed. A failed
  answer in the same loop makes both calls.
\<close>

lemma replay_skip:
  assumes "lower (strip line) = py ''skip''" and "answers (snd ex) = canonical # others"
  shows "replay_loop now db_examples (ex # wrong_exercises) (line # inputs) s =
    replay_loop now db_examples wrong_exercises inputs
      (say (Skipped canonical) (s\<lparr>question_num := question_num s + 1\<rparr>))"
    and "data (progress (say (Skipped canonical) (s\<lparr>question_num := question_num s + 1\<rparr>))) =
      data (progress s)"
    and "progress_file
        (progress (say (Skipped canonical) (s\<lparr>question_num := question_num s + 1\<rparr>))) =
      progress_file (progress s)"
  using assms by (simp_all add: control_words say_def)

lemma replay_miss:
  assumes "lower (strip sub) \<noteq> py ''quit''" and "lower (strip sub) \<noteq> py ''skip''"
    and "lower (strip sub) \<noteq> py ''hint''" and "strip sub \<noteq> []"
    and "\<not> check_answer (strip sub) (answers (snd ex))"
    and "answers (snd ex) = canonical # others"
  shows "ask_again now examples ex (sub # inputs) s =
    Next (wrong_answer now (category (snd ex)) (command (snd ex)) (question (snd ex))
            (answers (snd ex)) (strip sub)
            (attempt now (category (snd ex)) (command (snd ex)) False
               (let s = say (CanonicalAnswer canonical) (say StillWrong s)
                in if others \<noteq> [] then say (OtherForms others) s else s))) inputs"
  using assms by (simp add: Let_def)

text \<open>
  C2 at a failing input: in the example store, a replay session that reads \<open>skip\<close> and
  then Enter shows the answer and the summary and returns with the store as it was.
  \<open>total_exercises\<close> is still 2 and the entry's \<open>wrong_count\<close> still 1, where the
  calls C2 names would have made them 3 and 2.
\<close>

theorem replay_skip_records_nothing:
  "practice_wrong_answers example_clock no_examples [py ''skip'', []] example_run =
     Next (example_run
       \<lparr>progress := example_tracker
          \<lparr>terminal := terminal example_tracker @
             [Skipped (py ''ls -a''), ReplayDone 0 1 1 1]\<rparr>,
        question_num := 1\<rparr>) [] \<and>
   total_exercises (data example_tracker) = 2 \<and>
   map (\<lambda>x. wrong_count (snd x)) (wrong_book example_tracker) = [1] \<and>
   total_exercises (data (record_attempt (py ''files'') (py ''ls'') False (py ''t4'')
      example_tracker)) = 3 \<and>
   map (\<lambda>x. wrong_count (snd x))
     (wrong_book (record_wrong_answer (py ''files'') (py ''ls'') (py ''q'')
        [py ''ls -a'', py ''ls -A''] skipped (py ''t4'')
        (record_attempt (py ''files'') (py ''ls'') False (py ''t4'') example_tracker))) = [2]"
proof (intro conjI)
  show "practice_wrong_answers example_clock no_examples [py ''skip'', []] example_run =
     Next (example_run
       \<lparr>progress := example_tracker
          \<lparr>terminal := terminal example_tracker @
             [Skipped (py ''ls -a''), ReplayDone 0 1 1 1]\<rparr>,
        question_num := 1\<rparr>) []"
    by (simp add: practice_wrong_answers_def example_run_def example_replay example_skip
        control_words example_item_def say_def press_enter_def example_tracker_data)
  show "total_exercises (data example_tracker) = 2"
    by (simp add: example_tracker_data)
  show "map (\<lambda>x. wrong_count (snd x)) (wrong_book example_tracker) = [1]"
    by (simp add: example_tracker_book example_item_def)
  show "total_exercises (data (record_attempt (py ''files'') (py ''ls'') False (py ''t4'')
      example_tracker)) = 3"
    by (simp add: record_attempt_fields example_tracker_data)
  show "map (\<lambda>x. wrong_count (snd x))
     (wrong_book (record_wrong_answer (py ''files'') (py ''ls'') (py ''q'')
        [py ''ls -a'', py ''ls -A''] skipped (py ''t4'')
        (record_attempt (py ''files'') (py ''ls'') False (py ''t4'') example_tracker))) = [2]"
    by (simp add: record_wrong_answer_book wrong_book_record_attempt example_tracker_book
        example_item_def)
qed

end
